theory Spec2Isabelle
  imports Main "HOL-Library.Sublist"
begin

section \<open>Message streams: the select loops of Recv and Listen\<close>

text \<open>
  The three stream types (data.Stream, control.Stream, stream.NetStream) each run one task:
  \<^verbatim>\<open>
  func (s *Stream) Recv() {
      defer func() { close(s.in); close(s.errs); close(s.closer) }()
      for {
          select {
          case chunk := <-s.chunks:
              data, err := s.parser.Parse(chunk)
              if err != nil { s.errs <- err; continue }
              s.in <- data
          case <-s.closer:
              return
          }
      }
  }
  \<close>
  One execution of the select statement receives either a chunk pointer from the chunk
  channel or a value from the closer channel. A chunk pointer is \<open>'c option\<close>: \<open>None\<close> is
  the nil pointer, which is also what a receive from a closed and drained channel yields.
  The parser is a parameter; its result \<open>Inl err\<close> is the case \<open>err != nil\<close>. The parser is
  taken to return (a parser that panics is outside the model).
\<close>

datatype 'c received = FromChunks "'c option" | FromCloser

text \<open>Where the stream's task is: not started, waiting in the select, returned, or panicked.\<close>

datatype task = Idle | Selecting | Returned | Panicked

text \<open>
  The observable state of a stream: the values sent on the channels \<open>in\<close> and \<open>errs\<close> in
  the order of the sends (both channels are unbuffered, a send is a hand-off to the
  consumer), the number of \<open>close\<close> calls on each of the three channels, the number of
  values received from \<open>closer\<close>, and the task. A channel is closed when its count is
  positive; Go panics on a second \<open>close\<close>, so a count above one never occurs in a run.
\<close>

record ('m, 'e) stream =
  in_sent :: "'m list"
  errs_sent :: "'e list"
  in_closes :: nat
  errs_closes :: nat
  closer_closes :: nat
  closer_recvd :: nat
  task :: task

definition NewStream :: "('m, 'e) stream" where
  "NewStream = \<lparr>in_sent = [], errs_sent = [], in_closes = 0, errs_closes = 0,
     closer_closes = 0, closer_recvd = 0, task = Idle\<rparr>"

text \<open>The deferred function of Recv and Listen: \<open>close(s.in); close(s.errs); close(s.closer)\<close>.\<close>

definition deferred_closes :: "('m, 'e) stream \<Rightarrow> ('m, 'e) stream" where
  "deferred_closes s = s\<lparr>in_closes := Suc (in_closes s), errs_closes := Suc (errs_closes s),
     closer_closes := Suc (closer_closes s)\<rparr>"

text \<open>
  The loop of data.Stream.Recv over the sequence of values its select receives. When the
  sequence ends the task is still waiting in the select.
\<close>

fun data_Recv_loop ::
  "('c option \<Rightarrow> 'e + 'm) \<Rightarrow> 'c received list \<Rightarrow> ('m, 'e) stream \<Rightarrow> ('m, 'e) stream" where
  "data_Recv_loop parse [] s = s"
| "data_Recv_loop parse (FromChunks chunk # rs) s =
     (case parse chunk of
        Inl err \<Rightarrow> data_Recv_loop parse rs (s\<lparr>errs_sent := errs_sent s @ [err]\<rparr>)
      | Inr data \<Rightarrow> data_Recv_loop parse rs (s\<lparr>in_sent := in_sent s @ [data]\<rparr>))"
| "data_Recv_loop parse (FromCloser # rs) s =
     s\<lparr>closer_recvd := Suc (closer_recvd s), task := Returned\<rparr>"

text \<open>The deferred function runs when the task leaves Recv, by return or by panic.\<close>

definition run_deferred :: "('m, 'e) stream \<Rightarrow> ('m, 'e) stream" where
  "run_deferred s = (if task s = Returned \<or> task s = Panicked then deferred_closes s else s)"

definition data_Recv ::
  "('c option \<Rightarrow> 'e + 'm) \<Rightarrow> 'c received list \<Rightarrow> ('m, 'e) stream \<Rightarrow> ('m, 'e) stream" where
  "data_Recv parse rs s = run_deferred (data_Recv_loop parse rs (s\<lparr>task := Selecting\<rparr>))"

text \<open>control.Stream.Recv: the same loop, with the closer case written first.\<close>

fun control_Recv_loop ::
  "('c option \<Rightarrow> 'e + 'm) \<Rightarrow> 'c received list \<Rightarrow> ('m, 'e) stream \<Rightarrow> ('m, 'e) stream" where
  "control_Recv_loop parse [] s = s"
| "control_Recv_loop parse (FromCloser # rs) s =
     s\<lparr>closer_recvd := Suc (closer_recvd s), task := Returned\<rparr>"
| "control_Recv_loop parse (FromChunks c # rs) s =
     (case parse c of
        Inl err \<Rightarrow> control_Recv_loop parse rs (s\<lparr>errs_sent := errs_sent s @ [err]\<rparr>)
      | Inr control \<Rightarrow> control_Recv_loop parse rs (s\<lparr>in_sent := in_sent s @ [control]\<rparr>))"

definition control_Recv ::
  "('c option \<Rightarrow> 'e + 'm) \<Rightarrow> 'c received list \<Rightarrow> ('m, 'e) stream \<Rightarrow> ('m, 'e) stream" where
  "control_Recv parse rs s = run_deferred (control_Recv_loop parse rs (s\<lparr>task := Selecting\<rparr>))"

text \<open>
  NetStream.Listen parses \<open>bytes.NewReader(chunk.Data)\<close>: the field read \<open>chunk.Data\<close>
  (the parameter \<open>Data\<close>) dereferences the pointer, so a nil chunk panics. The close
  case is \<open>break L\<close>, after which Listen returns.
\<close>

fun Listen_loop ::
  "('c \<Rightarrow> 'b) \<Rightarrow> ('b \<Rightarrow> 'e + 'm) \<Rightarrow> 'c received list \<Rightarrow> ('m, 'e) stream \<Rightarrow> ('m, 'e) stream" where
  "Listen_loop Data parse [] n = n"
| "Listen_loop Data parse (FromChunks None # rs) n = n\<lparr>task := Panicked\<rparr>"
| "Listen_loop Data parse (FromChunks (Some chunk) # rs) n =
     (case parse (Data chunk) of
        Inl err \<Rightarrow> Listen_loop Data parse rs (n\<lparr>errs_sent := errs_sent n @ [err]\<rparr>)
      | Inr cmd \<Rightarrow> Listen_loop Data parse rs (n\<lparr>in_sent := in_sent n @ [cmd]\<rparr>))"
| "Listen_loop Data parse (FromCloser # rs) n =
     n\<lparr>closer_recvd := Suc (closer_recvd n), task := Returned\<rparr>"

definition Listen ::
  "('c \<Rightarrow> 'b) \<Rightarrow> ('b \<Rightarrow> 'e + 'm) \<Rightarrow> 'c received list \<Rightarrow> ('m, 'e) stream \<Rightarrow> ('m, 'e) stream" where
  "Listen Data parse rs n = run_deferred (Listen_loop Data parse rs (n\<lparr>task := Selecting\<rparr>))"

text \<open>The chunks delivered to a run loop, as the values its select receives.\<close>

definition delivered :: "'c list \<Rightarrow> 'c received list" where
  "delivered cs = map (\<lambda>c. FromChunks (Some c)) cs"

text \<open>The messages and the errors a parser gives on a sequence of chunks, in order.\<close>

fun parsed_ok :: "('c \<Rightarrow> 'e + 'm) \<Rightarrow> 'c list \<Rightarrow> 'm list" where
  "parsed_ok p [] = []"
| "parsed_ok p (c # cs) = (case p c of Inl e \<Rightarrow> parsed_ok p cs | Inr m \<Rightarrow> m # parsed_ok p cs)"

fun parsed_err :: "('c \<Rightarrow> 'e + 'm) \<Rightarrow> 'c list \<Rightarrow> 'e list" where
  "parsed_err p [] = []"
| "parsed_err p (c # cs) = (case p c of Inl e \<Rightarrow> e # parsed_err p cs | Inr m \<Rightarrow> parsed_err p cs)"

subsection \<open>Close and the closer channel\<close>

text \<open>
  All three streams define \<open>func (s *Stream) Close() { s.closer <- struct{}{} }\<close>: one send on
  the unbuffered channel \<open>closer\<close>. A send on a closed channel panics. On an open channel
  the send completes in the step in which a receiver takes the value, here the closer case
  of the task's select (the argument \<open>receiver\<close>: what the task does on receiving it, up
  to and including its deferred function); with no task in the select the sender blocks.
\<close>

datatype call = Returns | Blocks | Panics

definition send_closer ::
  "(('m, 'e) stream \<Rightarrow> ('m, 'e) stream) \<Rightarrow> ('m, 'e) stream \<Rightarrow> call \<times> ('m, 'e) stream" where
  "send_closer receiver s =
     (if 0 < closer_closes s then (Panics, s)
      else if task s = Selecting then (Returns, receiver s)
      else (Blocks, s))"

definition data_Close :: "('c option \<Rightarrow> 'e + 'm) \<Rightarrow> ('m, 'e) stream \<Rightarrow> call \<times> ('m, 'e) stream" where
  "data_Close parse s =
     send_closer (\<lambda>s. run_deferred (data_Recv_loop parse [FromCloser] s)) s"

definition control_Close :: "('c option \<Rightarrow> 'e + 'm) \<Rightarrow> ('m, 'e) stream \<Rightarrow> call \<times> ('m, 'e) stream" where
  "control_Close parse s =
     send_closer (\<lambda>s. run_deferred (control_Recv_loop parse [FromCloser] s)) s"

definition NetStream_Close ::
  "('c \<Rightarrow> 'b) \<Rightarrow> ('b \<Rightarrow> 'e + 'm) \<Rightarrow> ('m, 'e) stream \<Rightarrow> call \<times> ('m, 'e) stream" where
  "NetStream_Close Data parse n =
     send_closer (\<lambda>n. run_deferred (Listen_loop Data parse [FromCloser] n)) n"

subsection \<open>The chunk channel\<close>

text \<open>
  A channel of chunk pointers: the values its senders hand over, in order, and whether it
  has been closed. A receive takes the next value; on a closed and drained channel it
  returns the zero value (the nil pointer) at once, and the channel stays as it is; on an
  open channel with no sender it blocks (\<open>None\<close>). None of the run loops uses the
  two-valued receive \<open>chunk, ok := <-s.chunks\<close>.
\<close>

record 'c chan =
  offered :: "'c option list"
  chan_closed :: bool

definition chan_recv :: "'c chan \<Rightarrow> ('c option \<times> 'c chan) option" where
  "chan_recv ch =
     (case offered ch of
        x # xs \<Rightarrow> Some (x, ch\<lparr>offered := xs\<rparr>)
      | [] \<Rightarrow> if chan_closed ch then Some (None, ch) else None)"

text \<open>What the first \<open>n\<close> executions of the select receive when nobody calls Close.\<close>

fun receives :: "nat \<Rightarrow> 'c chan \<Rightarrow> 'c received list" where
  "receives 0 ch = []"
| "receives (Suc n) ch =
     (case chan_recv ch of
        None \<Rightarrow> []
      | Some (c, ch') \<Rightarrow> FromChunks c # receives n ch')"

definition exhausted :: "'c chan" where
  "exhausted = \<lparr>offered = [], chan_closed = True\<rparr>"

section \<open>The server: accept loop and shutdown state machine\<close>

datatype state = idle | accepting | closing | releasing | closed

text \<open>
  The edges of the diagram in server.go, and the order they generate: \<open>forward a b\<close>
  holds when \<open>b\<close> is \<open>a\<close> or lies after \<open>a\<close> along the edges.
\<close>

fun edge :: "state \<Rightarrow> state \<Rightarrow> bool" where
  "edge idle accepting = True"
| "edge accepting closing = True"
| "edge accepting releasing = True"
| "edge closing closed = True"
| "edge releasing closed = True"
| "edge a b = False"

fun forward :: "state \<Rightarrow> state \<Rightarrow> bool" where
  "forward idle b = True"
| "forward accepting b = (b \<noteq> idle)"
| "forward closing b = (b = closing \<or> b = closed)"
| "forward releasing b = (b = releasing \<or> b = closed)"
| "forward closed b = (b = closed)"

subsection \<open>Errors\<close>

text \<open>
  A Go \<open>error\<close> either implements \<open>net.Error\<close> (methods \<open>Timeout()\<close>, \<open>Temporary()\<close>,
  \<open>Error()\<close>) or does not. What is sent on \<open>errs\<close> is the error itself or the error
  wrapped in \<open>fatalError\<close>, whose method \<open>IsFatal\<close> returns true; an unwrapped error has
  no such method, which \<open>IsFatal\<close> renders as False.
\<close>

record net_Error =
  Timeout :: bool
  Temporary :: bool
  Error :: string

datatype error = NetError net_Error | OtherError string

datatype sent_error = plain error | fatalError error

fun IsFatal :: "sent_error \<Rightarrow> bool" where
  "IsFatal (fatalError e) = True"
| "IsFatal (plain e) = False"

text \<open>\<open>strings.Contains(s, substr)\<close>.\<close>

fun Contains :: "string \<Rightarrow> string \<Rightarrow> bool" where
  "Contains [] substr = (substr = [])"
| "Contains (c # s) substr = (prefix substr (c # s) \<or> Contains s substr)"

definition isNetCloseError :: "net_Error \<Rightarrow> bool" where
  "isNetCloseError err = Contains (Error err) ''use of closed network connection''"

text \<open>
  \<open>nerr, ok := err.(net.Error)\<close>: when the assertion fails \<open>nerr\<close> is the nil interface
  value, and a method call on it (directly, or \<open>err.Error()\<close> inside isNetCloseError) is a
  nil dereference, which panics: \<open>None\<close>.
\<close>

definition as_net_Error :: "error \<Rightarrow> net_Error option" where
  "as_net_Error err = (case err of NetError n \<Rightarrow> Some n | OtherError m \<Rightarrow> None)"

definition call_on :: "(net_Error \<Rightarrow> bool) \<Rightarrow> net_Error option \<Rightarrow> bool option" where
  "call_on f nerr = map_option f nerr"

subsection \<open>The listener\<close>

text \<open>
  The \<open>*net.TCPListener\<close> as far as the server uses it: whether it has been closed and the
  deadline set on it. Closing a closed listener fails with the error of the net package
  that isNetCloseError looks for; SetDeadline fails on a closed listener and sets nothing
  (Release drops its result).
\<close>

record TCPListener =
  fd_closed :: bool
  deadline_at :: "nat option"

definition socket_Close :: "TCPListener \<Rightarrow> string option \<times> TCPListener" where
  "socket_Close l =
     (if fd_closed l then (Some ''close tcp: use of closed network connection'', l)
      else (None, l\<lparr>fd_closed := True\<rparr>))"

definition SetDeadline :: "nat \<Rightarrow> TCPListener \<Rightarrow> TCPListener" where
  "SetDeadline t l = (if fd_closed l then l else l\<lparr>deadline_at := Some t\<rparr>)"

subsection \<open>The Server\<close>

text \<open>Where the task running Accept is.\<close>

datatype routine = NotRunning | Looping | Done | Crashed

text \<open>
  The struct Server: the handle \<open>socket\<close> with the listener object it points to, the
  fields \<open>deadline\<close> (a time.Duration, in nanoseconds) and \<open>state\<close>, and for the three channels the values sent and the
  number of \<open>close\<close> calls. The mutex of \<open>scond\<close> makes each of Close, Release,
  handleError, setState and setStateIf one atomic step, up to a wait in waitForState.
\<close>

record 'p Server =
  socket :: 'p
  listener :: TCPListener
  deadline :: int
  clients_sent :: "nat list"
  srv_errs_sent :: "sent_error list"
  clients_closes :: nat
  srv_errs_closes :: nat
  release_closes :: nat
  state :: state
  routine :: routine

definition NewSocket :: "'p \<Rightarrow> TCPListener \<Rightarrow> 'p Server" where
  "NewSocket p l = \<lparr>socket = p, listener = l, deadline = 1000000000, clients_sent = [],
     srv_errs_sent = [], clients_closes = 0, srv_errs_closes = 0, release_closes = 0,
     state = idle, routine = NotRunning\<rparr>"

text \<open>
  A call of Close or Release either returns a value, or reaches \<open>s.waitForState(closed)\<close>
  and returns the value after it.
\<close>

datatype 'a outcome = Return 'a | WaitThenReturn state 'a

definition Close :: "'p Server \<Rightarrow> string option outcome \<times> 'p Server" where
  "Close s =
     (case socket_Close (listener s) of
        (Some err, l) \<Rightarrow> (Return (Some err), s\<lparr>listener := l\<rparr>)
      | (None, l) \<Rightarrow>
          if state s \<noteq> accepting then (Return None, s\<lparr>listener := l, state := closed\<rparr>)
          else (WaitThenReturn closed None, s\<lparr>listener := l, state := closing\<rparr>))"

definition Release :: "nat \<Rightarrow> 'p Server \<Rightarrow> 'p outcome \<times> 'p Server" where
  "Release now s =
     (if state s \<noteq> accepting then (Return (socket s), s\<lparr>state := closed\<rparr>)
      else (WaitThenReturn closed (socket s),
            s\<lparr>state := releasing, listener := SetDeadline now (listener s)\<rparr>))"

text \<open>
  waitForState over the values of \<open>s.state\<close> at its successive checks (the first at
  once, each later one after a wake-up from \<open>scond.Wait()\<close>): it returns at the first
  check that reads the expected state, giving the state read there; \<open>None\<close> when no check
  does, the caller staying in the wait.
\<close>

fun waitForState :: "state \<Rightarrow> state list \<Rightarrow> state option" where
  "waitForState expected [] = None"
| "waitForState expected (v # vs) = (if expected = v then Some v else waitForState expected vs)"

text \<open>
  What a call returns, given the states the server passes through after the step that
  started it: the value and the state at the moment of return, or \<open>None\<close> for a call
  that never returns.
\<close>

fun completes :: "'a outcome \<times> 'p Server \<Rightarrow> state list \<Rightarrow> ('a \<times> state) option" where
  "completes (Return v, s) later = Some (v, state s)"
| "completes (WaitThenReturn expected v, s) later =
     map_option (\<lambda>st. (v, st)) (waitForState expected (state s # later))"

definition handleError :: "error \<Rightarrow> 'p Server \<Rightarrow> bool option \<times> 'p Server" where
  "handleError err s =
     (let nerr = as_net_Error err;
          s1 = (if nerr = None then s\<lparr>srv_errs_sent := srv_errs_sent s @ [plain err]\<rparr> else s)
      in case (if state s1 = releasing then call_on Timeout nerr else Some False) of
           None \<Rightarrow> (None, s1)
         | Some True \<Rightarrow> (Some True, s1)
         | Some False \<Rightarrow>
            (case (if state s1 = closing then call_on isNetCloseError nerr else Some False) of
               None \<Rightarrow> (None, s1)
             | Some True \<Rightarrow> (Some True, s1)
             | Some False \<Rightarrow>
                (case call_on Temporary nerr of
                   None \<Rightarrow> (None, s1)
                 | Some True \<Rightarrow>
                     (Some False, s1\<lparr>srv_errs_sent := srv_errs_sent s1 @ [plain err]\<rparr>)
                 | Some False \<Rightarrow>
                     (Some True, s1\<lparr>srv_errs_sent := srv_errs_sent s1 @ [fatalError err]\<rparr>))))"

text \<open>
  setState and setStateIf write \<open>s.state\<close> and call \<open>s.scond.Broadcast()\<close>, after which
  each caller waiting in waitForState makes its next check; the fast paths of Close and
  Release write \<open>s.state\<close> without a broadcast.
\<close>

definition setState :: "state \<Rightarrow> 'p Server \<Rightarrow> 'p Server" where
  "setState v s = s\<lparr>state := v\<rparr>"

definition setStateIf :: "state \<Rightarrow> (state \<Rightarrow> bool) \<Rightarrow> 'p Server \<Rightarrow> bool \<times> 'p Server" where
  "setStateIf to predicate s = (if predicate (state s) then (True, s\<lparr>state := to\<rparr>) else (False, s))"

text \<open>
  Accept in two parts. Entry: \<open>setStateIf(accepting, v == idle)\<close>, returning at once when
  it fails. One iteration of the loop, for the result of \<open>s.socket.Accept()\<close> (\<open>Inl\<close> when
  \<open>err != nil\<close>): a connection goes to \<open>clients\<close>, an error to handleError; when that
  says kill, or panics, the deferred \<open>setState(closed)\<close> runs and the task is over.
\<close>

definition Accept_enter :: "'p Server \<Rightarrow> 'p Server" where
  "Accept_enter s =
     (case setStateIf accepting (\<lambda>v. v = idle) s of
        (False, s') \<Rightarrow> s'
      | (True, s') \<Rightarrow> s'\<lparr>routine := Looping\<rparr>)"

definition Accept_iteration :: "error + nat \<Rightarrow> 'p Server \<Rightarrow> 'p Server" where
  "Accept_iteration r s =
     (case r of
        Inr conn \<Rightarrow> s\<lparr>clients_sent := clients_sent s @ [conn]\<rparr>
      | Inl err \<Rightarrow>
         (case handleError err s of
            (Some False, s') \<Rightarrow> s'
          | (Some True, s') \<Rightarrow> setState closed (s'\<lparr>routine := Done\<rparr>)
          | (None, s') \<Rightarrow> setState closed (s'\<lparr>routine := Crashed\<rparr>)))"

text \<open>
  The steps that the tasks using one Server take, in the order the mutex gives them.
  An iteration of the accept loop happens only while the accept task is in its loop.
\<close>

datatype event = CallAccept | AcceptReturns "error + nat" | CallClose | CallRelease nat

fun exec :: "event \<Rightarrow> 'p Server \<Rightarrow> 'p Server" where
  "exec CallAccept s = Accept_enter s"
| "exec (AcceptReturns r) s = (if routine s = Looping then Accept_iteration r s else s)"
| "exec CallClose s = snd (Close s)"
| "exec (CallRelease now) s = snd (Release now s)"

fun run :: "event list \<Rightarrow> 'p Server \<Rightarrow> 'p Server" where
  "run [] s = s"
| "run (e # es) s = run es (exec e s)"

section \<open>Properties of the message streams\<close>

subsection \<open>Chunks in, messages and errors out\<close>

lemma parsed_lengths: "length (parsed_ok p cs) + length (parsed_err p cs) = length cs"
  by (induction cs) (auto split: sum.splits)

lemma data_Recv_loop_delivered:
  "data_Recv_loop parse (delivered cs) s =
     s\<lparr>in_sent := in_sent s @ parsed_ok (\<lambda>c. parse (Some c)) cs,
       errs_sent := errs_sent s @ parsed_err (\<lambda>c. parse (Some c)) cs\<rparr>"
  by (induction cs arbitrary: s) (auto simp: delivered_def split: sum.splits)

lemma control_Recv_loop_delivered:
  "control_Recv_loop parse (delivered cs) s =
     s\<lparr>in_sent := in_sent s @ parsed_ok (\<lambda>c. parse (Some c)) cs,
       errs_sent := errs_sent s @ parsed_err (\<lambda>c. parse (Some c)) cs\<rparr>"
  by (induction cs arbitrary: s) (auto simp: delivered_def split: sum.splits)

lemma Listen_loop_delivered:
  "Listen_loop Data parse (delivered cs) s =
     s\<lparr>in_sent := in_sent s @ parsed_ok (\<lambda>c. parse (Data c)) cs,
       errs_sent := errs_sent s @ parsed_err (\<lambda>c. parse (Data c)) cs\<rparr>"
  by (induction cs arbitrary: s) (auto simp: delivered_def split: sum.splits)

subsection \<open>What a run loop leaves unchanged, and how it ends\<close>

lemma data_loop_closes:
  "in_closes (data_Recv_loop parse rs s) = in_closes s
   \<and> errs_closes (data_Recv_loop parse rs s) = errs_closes s
   \<and> closer_closes (data_Recv_loop parse rs s) = closer_closes s"
  by (induction parse rs s rule: data_Recv_loop.induct) (auto split: sum.splits)

lemma data_loop_task:
  "task (data_Recv_loop parse rs s) = (if FromCloser \<in> set rs then Returned else task s)"
  by (induction parse rs s rule: data_Recv_loop.induct) (auto split: sum.splits)

lemma data_loop_recvd:
  "closer_recvd (data_Recv_loop parse rs s) = (if FromCloser \<in> set rs then Suc (closer_recvd s) else closer_recvd s)"
  by (induction parse rs s rule: data_Recv_loop.induct) (auto split: sum.splits)

lemma control_loop_closes:
  "in_closes (control_Recv_loop parse rs s) = in_closes s
   \<and> errs_closes (control_Recv_loop parse rs s) = errs_closes s
   \<and> closer_closes (control_Recv_loop parse rs s) = closer_closes s"
  by (induction parse rs s rule: control_Recv_loop.induct) (auto split: sum.splits)

lemma control_loop_task:
  "task (control_Recv_loop parse rs s) = (if FromCloser \<in> set rs then Returned else task s)"
  by (induction parse rs s rule: control_Recv_loop.induct) (auto split: sum.splits)

lemma control_loop_recvd:
  "closer_recvd (control_Recv_loop parse rs s) = (if FromCloser \<in> set rs then Suc (closer_recvd s) else closer_recvd s)"
  by (induction parse rs s rule: control_Recv_loop.induct) (auto split: sum.splits)

lemma Listen_loop_closes:
  "in_closes (Listen_loop Data parse rs s) = in_closes s
   \<and> errs_closes (Listen_loop Data parse rs s) = errs_closes s
   \<and> closer_closes (Listen_loop Data parse rs s) = closer_closes s"
  by (induction Data parse rs s rule: Listen_loop.induct) (auto split: sum.splits)

lemma Listen_loop_task:
  "task s = Selecting \<Longrightarrow> task (Listen_loop Data parse rs s) = Selecting \<or> task (Listen_loop Data parse rs s) = Returned \<or> task (Listen_loop Data parse rs s) = Panicked"
  by (induction Data parse rs s rule: Listen_loop.induct) (auto split: sum.splits)

lemma Listen_loop_recvd:
  "task s = Selecting \<Longrightarrow> closer_recvd (Listen_loop Data parse rs s) = (if task (Listen_loop Data parse rs s) = Returned then Suc (closer_recvd s) else closer_recvd s)"
  by (induction Data parse rs s rule: Listen_loop.induct) (auto split: sum.splits)

lemma receives_exhausted: "receives n (exhausted :: 'c chan) = replicate n (FromChunks None)"
  by (induction n) (auto simp: chan_recv_def exhausted_def)

text \<open>
  C1. For every finite sequence of chunks delivered to the run loop of a stream (data Recv,
  control Recv, NetStream Listen), the produced-message feed carries exactly the messages
  of the chunks whose parse succeeds and the error feed exactly the errors of the chunks
  whose parse fails, each in chunk arrival order; the task is still waiting in its select
  afterwards (a parse failure does not end the loop, no channel is closed), and the two
  feeds together carry as many entries as chunks were delivered.
\<close>

theorem C1_chunks_to_feeds:
  "data_Recv parse (delivered cs) NewStream =
     NewStream\<lparr>in_sent := parsed_ok (\<lambda>c. parse (Some c)) cs,
       errs_sent := parsed_err (\<lambda>c. parse (Some c)) cs, task := Selecting\<rparr>
   \<and> control_Recv parse (delivered cs) NewStream =
     NewStream\<lparr>in_sent := parsed_ok (\<lambda>c. parse (Some c)) cs,
       errs_sent := parsed_err (\<lambda>c. parse (Some c)) cs, task := Selecting\<rparr>
   \<and> Listen Data parse' (delivered cs) NewStream =
     NewStream\<lparr>in_sent := parsed_ok (\<lambda>c. parse' (Data c)) cs,
       errs_sent := parsed_err (\<lambda>c. parse' (Data c)) cs, task := Selecting\<rparr>
   \<and> length (in_sent (data_Recv parse (delivered cs) NewStream))
       + length (errs_sent (data_Recv parse (delivered cs) NewStream)) = length cs
   \<and> length (in_sent (control_Recv parse (delivered cs) NewStream))
       + length (errs_sent (control_Recv parse (delivered cs) NewStream)) = length cs
   \<and> length (in_sent (Listen Data parse' (delivered cs) NewStream))
       + length (errs_sent (Listen Data parse' (delivered cs) NewStream)) = length cs"
  by (simp add: data_Recv_def control_Recv_def Listen_def run_deferred_def
      data_Recv_loop_delivered control_Recv_loop_delivered Listen_loop_delivered
      NewStream_def parsed_lengths)

subsection \<open>Close of a stream\<close>

text \<open>
  The specification describes Close on a stream whose run loop has already exited as a
  call that blocks for ever in its hand-off. The run loop's deferred function has closed
  \<open>closer\<close> by then, so the send does not block: it panics. Here after a run loop that
  received one close signal and returned.
\<close>

theorem C5_counterexample:
  "task (data_Recv (\<lambda>c. Inr c :: string + nat option) [FromCloser] NewStream) = Returned
   \<and> fst (data_Close (\<lambda>c. Inr c :: string + nat option)
        (data_Recv (\<lambda>c. Inr c :: string + nat option) [FromCloser] NewStream)) = Panics
   \<and> fst (data_Close (\<lambda>c. Inr c :: string + nat option)
        (data_Recv (\<lambda>c. Inr c :: string + nat option) [FromCloser] NewStream)) \<noteq> Blocks"
  by (simp add: data_Recv_def data_Close_def send_closer_def run_deferred_def deferred_closes_def
      NewStream_def)

lemma send_closer_after_run:
  assumes "closer_closes s = (if task s = Selecting then 0 else 1)"
  shows "fst (send_closer r s) = (if task s = Selecting then Returns else Panics)"
    and "task s \<noteq> Selecting \<Longrightarrow> snd (send_closer r s) = s"
  using assms by (auto simp: send_closer_def)

text \<open>
  C5, as the code has it. With the run loop waiting in its select, Close hands over
  exactly one close signal: the call returns in the step in which the loop receives the
  signal, and the loop then returns, its deferred function closing the three channels.
  With no task in the select (Recv or Listen not started) the call blocks, nothing being
  delivered. Once the run loop has exited, by return or by panic, Close does not block
  and delivers nothing: its send finds \<open>closer\<close> closed and panics, so the call does not
  return normally.
\<close>

theorem C5_Close_hands_over_or_panics:
  "data_Close parse (data_Recv parse (delivered cs) NewStream) =
     (Returns, (data_Recv parse (delivered cs) NewStream)
        \<lparr>in_closes := 1, errs_closes := 1, closer_closes := 1, closer_recvd := 1, task := Returned\<rparr>)
   \<and> control_Close parse (control_Recv parse (delivered cs) NewStream) =
     (Returns, (control_Recv parse (delivered cs) NewStream)
        \<lparr>in_closes := 1, errs_closes := 1, closer_closes := 1, closer_recvd := 1, task := Returned\<rparr>)
   \<and> NetStream_Close Data parse' (Listen Data parse' (delivered cs) NewStream) =
     (Returns, (Listen Data parse' (delivered cs) NewStream)
        \<lparr>in_closes := 1, errs_closes := 1, closer_closes := 1, closer_recvd := 1, task := Returned\<rparr>)
   \<and> data_Close parse NewStream = (Blocks, NewStream)
   \<and> control_Close parse NewStream = (Blocks, NewStream)
   \<and> NetStream_Close Data parse' NewStream = (Blocks, NewStream)
   \<and> fst (data_Close parse (data_Recv parse rs NewStream)) =
       (if task (data_Recv parse rs NewStream) = Selecting then Returns else Panics)
   \<and> fst (control_Close parse (control_Recv parse rs NewStream)) =
       (if task (control_Recv parse rs NewStream) = Selecting then Returns else Panics)
   \<and> fst (NetStream_Close Data parse' (Listen Data parse' rs NewStream)) =
       (if task (Listen Data parse' rs NewStream) = Selecting then Returns else Panics)"
proof -
  have l: "task (Listen_loop Data parse' rs (NewStream\<lparr>task := Selecting\<rparr>)) = Selecting
     \<or> task (Listen_loop Data parse' rs (NewStream\<lparr>task := Selecting\<rparr>)) = Returned
     \<or> task (Listen_loop Data parse' rs (NewStream\<lparr>task := Selecting\<rparr>)) = Panicked"
    by (rule Listen_loop_task) simp
  have a: "data_Close parse (data_Recv parse (delivered cs) NewStream) =
     (Returns, (data_Recv parse (delivered cs) NewStream)
        \<lparr>in_closes := 1, errs_closes := 1, closer_closes := 1, closer_recvd := 1, task := Returned\<rparr>)"
    by (simp add: data_Close_def send_closer_def data_Recv_def run_deferred_def
        deferred_closes_def data_Recv_loop_delivered NewStream_def)
  have b: "control_Close parse (control_Recv parse (delivered cs) NewStream) =
     (Returns, (control_Recv parse (delivered cs) NewStream)
        \<lparr>in_closes := 1, errs_closes := 1, closer_closes := 1, closer_recvd := 1, task := Returned\<rparr>)"
    by (simp add: control_Close_def send_closer_def control_Recv_def run_deferred_def
        deferred_closes_def control_Recv_loop_delivered NewStream_def)
  have c: "NetStream_Close Data parse' (Listen Data parse' (delivered cs) NewStream) =
     (Returns, (Listen Data parse' (delivered cs) NewStream)
        \<lparr>in_closes := 1, errs_closes := 1, closer_closes := 1, closer_recvd := 1, task := Returned\<rparr>)"
    by (simp add: NetStream_Close_def send_closer_def Listen_def run_deferred_def
        deferred_closes_def Listen_loop_delivered NewStream_def)
  have d: "data_Close parse NewStream = (Blocks, NewStream)"
    "control_Close parse NewStream = (Blocks, NewStream)"
    "NetStream_Close Data parse' NewStream = (Blocks, NewStream)"
    by (simp_all add: data_Close_def control_Close_def NetStream_Close_def send_closer_def
        NewStream_def)
  have e: "fst (data_Close parse (data_Recv parse rs NewStream)) =
       (if task (data_Recv parse rs NewStream) = Selecting then Returns else Panics)"
    unfolding data_Close_def
    by (rule send_closer_after_run)
      (simp add: data_Recv_def run_deferred_def deferred_closes_def data_loop_closes
        data_loop_task NewStream_def)
  have f: "fst (control_Close parse (control_Recv parse rs NewStream)) =
       (if task (control_Recv parse rs NewStream) = Selecting then Returns else Panics)"
    unfolding control_Close_def
    by (rule send_closer_after_run)
      (simp add: control_Recv_def run_deferred_def deferred_closes_def control_loop_closes
        control_loop_task NewStream_def)
  have g: "fst (NetStream_Close Data parse' (Listen Data parse' rs NewStream)) =
       (if task (Listen Data parse' rs NewStream) = Selecting then Returns else Panics)"
    unfolding NetStream_Close_def
    by (rule send_closer_after_run)
      (use l in \<open>auto simp: Listen_def run_deferred_def deferred_closes_def Listen_loop_closes
        NewStream_def\<close>)
  show ?thesis
    by (rule conjI [OF a conjI [OF b conjI [OF c conjI [OF d(1) conjI [OF d(2)
          conjI [OF d(3) conjI [OF e conjI [OF f g]]]]]]]])
qed

subsection \<open>An exhausted chunk source\<close>

text \<open>
  The specification has the run task end when the chunk channel is closed and drained.
  The receive in the select has no \<open>ok\<close> result, so on such a channel every execution
  of the select receives the nil chunk at once. With a parser that reports an error for
  the nil chunk, data.Stream.Recv is still in its loop after three iterations, three
  errors sent and no channel closed.
\<close>

theorem C7_counterexample:
  "chan_recv (exhausted :: nat chan) = Some (None, exhausted)
   \<and> task (data_Recv (\<lambda>c. case c of None \<Rightarrow> Inl ''nil chunk'' | Some x \<Rightarrow> Inr (x::nat))
        (receives 3 exhausted) NewStream) = Selecting
   \<and> errs_sent (data_Recv (\<lambda>c. case c of None \<Rightarrow> Inl ''nil chunk'' | Some x \<Rightarrow> Inr (x::nat))
        (receives 3 exhausted) NewStream) = [''nil chunk'', ''nil chunk'', ''nil chunk'']
   \<and> in_closes (data_Recv (\<lambda>c. case c of None \<Rightarrow> Inl ''nil chunk'' | Some x \<Rightarrow> Inr (x::nat))
        (receives 3 exhausted) NewStream) = 0"
  by (simp add: receives_exhausted numeral_3_eq_3 data_Recv_def run_deferred_def NewStream_def
      chan_recv_def exhausted_def)

lemma data_loop_nil:
  "data_Recv_loop parse (replicate n (FromChunks None)) s =
     (case parse None of
        Inl err \<Rightarrow> s\<lparr>errs_sent := errs_sent s @ replicate n err\<rparr>
      | Inr m \<Rightarrow> s\<lparr>in_sent := in_sent s @ replicate n m\<rparr>)"
  by (induction n arbitrary: s) (auto split: sum.splits simp: replicate_append_same)

lemma control_loop_nil:
  "control_Recv_loop parse (replicate n (FromChunks None)) s =
     (case parse None of
        Inl err \<Rightarrow> s\<lparr>errs_sent := errs_sent s @ replicate n err\<rparr>
      | Inr m \<Rightarrow> s\<lparr>in_sent := in_sent s @ replicate n m\<rparr>)"
  by (induction n arbitrary: s) (auto split: sum.splits simp: replicate_append_same)

text \<open>
  C7, as the code has it. A receive from the closed and drained chunk channel yields the
  nil chunk and leaves the channel as it is, so the select is ready again. Without a
  Close call, data.Stream.Recv and control.Stream.Recv never leave their loop: after any
  number \<open>n\<close> of iterations the task is in its select, the parser's result for the nil
  chunk has been sent \<open>n\<close> times, and no channel is closed. NetStream.Listen
  dereferences the nil chunk in its first iteration and panics, its deferred function
  closing the three channels. A run loop returns only by receiving the close signal.
\<close>

theorem C7_exhausted_source:
  "chan_recv (exhausted :: 'c chan) = Some (None, exhausted)
   \<and> data_Recv parse (receives n (exhausted :: 'c chan)) NewStream =
       (case parse None of
          Inl err \<Rightarrow> NewStream\<lparr>errs_sent := replicate n err, task := Selecting\<rparr>
        | Inr m \<Rightarrow> NewStream\<lparr>in_sent := replicate n m, task := Selecting\<rparr>)
   \<and> control_Recv parse (receives n (exhausted :: 'c chan)) NewStream =
       (case parse None of
          Inl err \<Rightarrow> NewStream\<lparr>errs_sent := replicate n err, task := Selecting\<rparr>
        | Inr m \<Rightarrow> NewStream\<lparr>in_sent := replicate n m, task := Selecting\<rparr>)
   \<and> Listen Data parse' (receives (Suc n) (exhausted :: 'd chan)) NewStream =
       NewStream\<lparr>in_closes := 1, errs_closes := 1, closer_closes := 1, task := Panicked\<rparr>
   \<and> (task (data_Recv parse rs NewStream) = Returned) = (FromCloser \<in> set rs)
   \<and> (task (control_Recv parse rs NewStream) = Returned) = (FromCloser \<in> set rs)
   \<and> closer_recvd (Listen Data parse' rs' NewStream) =
       (if task (Listen Data parse' rs' NewStream) = Returned then 1 else 0)"
proof -
  have a: "chan_recv (exhausted :: 'c chan) = Some (None, exhausted)"
    by (simp add: chan_recv_def exhausted_def)
  have b: "data_Recv parse (receives n (exhausted :: 'c chan)) NewStream =
       (case parse None of
          Inl err \<Rightarrow> NewStream\<lparr>errs_sent := replicate n err, task := Selecting\<rparr>
        | Inr m \<Rightarrow> NewStream\<lparr>in_sent := replicate n m, task := Selecting\<rparr>)"
    by (simp add: receives_exhausted data_Recv_def data_loop_nil run_deferred_def NewStream_def
        split: sum.splits)
  have c: "control_Recv parse (receives n (exhausted :: 'c chan)) NewStream =
       (case parse None of
          Inl err \<Rightarrow> NewStream\<lparr>errs_sent := replicate n err, task := Selecting\<rparr>
        | Inr m \<Rightarrow> NewStream\<lparr>in_sent := replicate n m, task := Selecting\<rparr>)"
    by (simp add: receives_exhausted control_Recv_def control_loop_nil run_deferred_def
        NewStream_def split: sum.splits)
  have d: "Listen Data parse' (receives (Suc n) (exhausted :: 'd chan)) NewStream =
       NewStream\<lparr>in_closes := 1, errs_closes := 1, closer_closes := 1, task := Panicked\<rparr>"
    by (simp add: receives_exhausted Listen_def run_deferred_def deferred_closes_def
        NewStream_def)
  have e: "(task (data_Recv parse rs NewStream) = Returned) = (FromCloser \<in> set rs)"
    by (simp add: data_Recv_def run_deferred_def deferred_closes_def data_loop_task)
  have f: "(task (control_Recv parse rs NewStream) = Returned) = (FromCloser \<in> set rs)"
    by (simp add: control_Recv_def run_deferred_def deferred_closes_def control_loop_task)
  have g: "closer_recvd (Listen Data parse' rs' NewStream) =
       (if task (Listen Data parse' rs' NewStream) = Returned then 1 else 0)"
    using Listen_loop_recvd [of "NewStream\<lparr>task := Selecting\<rparr>" Data parse' rs']
    by (simp add: Listen_def run_deferred_def deferred_closes_def NewStream_def)
  show ?thesis
    by (rule conjI [OF a conjI [OF b conjI [OF c conjI [OF d conjI [OF e conjI [OF f g]]]]]])
qed

section \<open>Properties of the server\<close>

subsection \<open>The order of the states, and what each step leaves unchanged\<close>

lemma forward_refl: "forward a a" by (cases a) auto
lemma forward_trans: "forward a b \<Longrightarrow> forward b c \<Longrightarrow> forward a c"
  by (cases a; cases b; cases c) auto
lemma edge_forward: "edge a b \<Longrightarrow> forward a b"
  by (cases a; cases b) auto

lemma forward_edges: "forward a b \<Longrightarrow> edge\<^sup>*\<^sup>* a b"
proof -
  have ia: "edge\<^sup>*\<^sup>* idle accepting" and ac: "edge\<^sup>*\<^sup>* accepting closing"
    and ar: "edge\<^sup>*\<^sup>* accepting releasing" and cd: "edge\<^sup>*\<^sup>* closing closed"
    and rd: "edge\<^sup>*\<^sup>* releasing closed" by (simp_all add: r_into_rtranclp)
  note ad = rtranclp_trans [OF ac cd]
  note ic = rtranclp_trans [OF ia ac]
  note ir = rtranclp_trans [OF ia ar]
  note idc = rtranclp_trans [OF ia ad]
  assume "forward a b"
  then show ?thesis
    by (cases a; cases b) (simp_all add: ia ac ar cd rd ad ic ir idc)
qed

lemma edges_forward: "edge\<^sup>*\<^sup>* a b \<Longrightarrow> forward a b"
  by (induction rule: rtranclp_induct) (auto intro: forward_refl forward_trans edge_forward)

lemma handleError_net:
  "handleError (NetError n) s =
     (if (state s = releasing \<and> Timeout n) \<or> (state s = closing \<and> isNetCloseError n)
      then (Some True, s)
      else if Temporary n
      then (Some False, s\<lparr>srv_errs_sent := srv_errs_sent s @ [plain (NetError n)]\<rparr>)
      else (Some True, s\<lparr>srv_errs_sent := srv_errs_sent s @ [fatalError (NetError n)]\<rparr>))"
  by (simp add: handleError_def as_net_Error_def call_on_def Let_def)

lemma handleError_other:
  "handleError (OtherError m) s =
     (None, s\<lparr>srv_errs_sent := srv_errs_sent s @ [plain (OtherError m)]\<rparr>)"
  by (simp add: handleError_def as_net_Error_def call_on_def Let_def)

lemma handleError_frame:
  "state (snd (handleError err s)) = state s
   \<and> listener (snd (handleError err s)) = listener s
   \<and> socket (snd (handleError err s)) = socket s
   \<and> clients_closes (snd (handleError err s)) = clients_closes s
   \<and> srv_errs_closes (snd (handleError err s)) = srv_errs_closes s
   \<and> release_closes (snd (handleError err s)) = release_closes s
   \<and> routine (snd (handleError err s)) = routine s"
  by (cases err) (simp_all add: handleError_net handleError_other)

lemma Accept_iteration_state:
  "state (Accept_iteration r s) = state s \<or> state (Accept_iteration r s) = closed"
proof (cases r)
  case (Inl err)
  obtain k s' where h: "handleError err s = (k, s')" by (cases "handleError err s")
  with handleError_frame [of err s] have "state s' = state s" by simp
  with Inl h show ?thesis
    by (auto simp: Accept_iteration_def setState_def split: option.splits bool.splits)
next
  case (Inr conn)
  then show ?thesis by (simp add: Accept_iteration_def)
qed

lemma Accept_iteration_frame:
  "listener (Accept_iteration r s) = listener s
   \<and> socket (Accept_iteration r s) = socket s
   \<and> clients_closes (Accept_iteration r s) = clients_closes s
   \<and> srv_errs_closes (Accept_iteration r s) = srv_errs_closes s
   \<and> release_closes (Accept_iteration r s) = release_closes s"
proof (cases r)
  case (Inl err)
  obtain k s' where h: "handleError err s = (k, s')" by (cases "handleError err s")
  with handleError_frame [of err s] Inl show ?thesis
    by (auto simp: Accept_iteration_def setState_def split: option.splits bool.splits)
next
  case (Inr conn)
  then show ?thesis by (simp add: Accept_iteration_def)
qed

lemma Close_state:
  "state (snd (Close s)) =
     (if fd_closed (listener s) then state s
      else if state s = accepting then closing else closed)"
  by (simp add: Close_def socket_Close_def)

lemma Release_state:
  "state (snd (Release now s)) = (if state s = accepting then releasing else closed)"
  by (simp add: Release_def)

lemma Accept_enter_state:
  "state (Accept_enter s) = (if state s = idle then accepting else state s)"
  by (simp add: Accept_enter_def setStateIf_def)

lemma forward_closed: "forward a closed" by (cases a) auto

lemma exec_forward: "forward (state s) (state (exec e s))"
proof (cases e)
  case CallAccept
  then show ?thesis by (cases "state s") (simp_all add: Accept_enter_state)
next
  case (AcceptReturns r)
  with Accept_iteration_state [of r s] show ?thesis
    by (auto simp: forward_refl forward_closed)
next
  case CallClose
  then show ?thesis by (cases "state s") (simp_all add: Close_state)
next
  case (CallRelease now)
  then show ?thesis by (cases "state s") (simp_all add: Release_state)
qed

lemma run_forward: "forward (state s) (state (run es s))"
proof (induction es arbitrary: s)
  case Nil
  show ?case by (simp add: forward_refl)
next
  case (Cons e es)
  from exec_forward [of s e] Cons [of "exec e s"] show ?case
    by (auto intro: forward_trans)
qed

lemma exec_frame:
  "socket (exec e s) = socket s
   \<and> clients_closes (exec e s) = clients_closes s
   \<and> srv_errs_closes (exec e s) = srv_errs_closes s
   \<and> release_closes (exec e s) = release_closes s"
  by (cases e)
    (simp_all add: Accept_iteration_frame Accept_enter_def setStateIf_def Close_def
      socket_Close_def Release_def)

lemma run_frame:
  "socket (run es s) = socket s
   \<and> clients_closes (run es s) = clients_closes s
   \<and> srv_errs_closes (run es s) = srv_errs_closes s
   \<and> release_closes (run es s) = release_closes s"
  by (induction es arbitrary: s) (simp_all add: exec_frame)

lemma exec_listener_open:
  "CallClose \<noteq> e \<Longrightarrow> fd_closed (listener (exec e s)) = fd_closed (listener s)"
  by (cases e)
    (simp_all add: Accept_iteration_frame Accept_enter_def setStateIf_def Release_def
      SetDeadline_def)

lemma run_listener_open:
  "CallClose \<notin> set es \<Longrightarrow> fd_closed (listener (run es s)) = fd_closed (listener s)"
  by (induction es arbitrary: s) (simp_all add: exec_listener_open)

lemma waitForState_iff:
  "waitForState expected vs = (if expected \<in> set vs then Some expected else None)"
  by (induction vs) auto

subsection \<open>Classification of accept errors\<close>

text \<open>
  C3. For an accept error that is a network error, handleError and the loop iteration
  around it do the following, the cases read in this order. If the state is releasing and
  the error is a timeout, or the state is closing and the error text says that the
  listening socket was closed: handleError says kill, nothing is sent on the error feed,
  and the accept task ends (its deferred setState leaves the state closed). Otherwise, if
  the error is temporary: it is sent on the error feed unwrapped, which is not fatal, and
  the task stays in its loop. Otherwise: it is sent once, wrapped in fatalError, whose
  IsFatal is true, and the accept task ends.
\<close>

theorem C3_accept_error_classification:
  "handleError (NetError n) s =
     (if (state s = releasing \<and> Timeout n) \<or> (state s = closing \<and> isNetCloseError n)
      then (Some True, s)
      else if Temporary n
      then (Some False, s\<lparr>srv_errs_sent := srv_errs_sent s @ [plain (NetError n)]\<rparr>)
      else (Some True, s\<lparr>srv_errs_sent := srv_errs_sent s @ [fatalError (NetError n)]\<rparr>))
   \<and> exec (AcceptReturns (Inl (NetError n))) (s\<lparr>routine := Looping\<rparr>) =
     (if (state s = releasing \<and> Timeout n) \<or> (state s = closing \<and> isNetCloseError n)
      then s\<lparr>routine := Done, state := closed\<rparr>
      else if Temporary n
      then s\<lparr>routine := Looping, srv_errs_sent := srv_errs_sent s @ [plain (NetError n)]\<rparr>
      else s\<lparr>routine := Done, state := closed,
             srv_errs_sent := srv_errs_sent s @ [fatalError (NetError n)]\<rparr>)
   \<and> \<not> IsFatal (plain (NetError n)) \<and> IsFatal (fatalError (NetError n))"
  by (simp add: handleError_net Accept_iteration_def setState_def)

text \<open>
  C6. The claim: an accept error that is not a network error is forwarded on the error
  feed as non-fatal and the accept loop goes on, handleError itself not failing. What
  handleError does, in every state and for every such error: it sends the error on the
  error feed, does not return after the send, and goes on to call a method on the nil
  \<open>nerr\<close>, which panics; the accept task ends there, its deferred setState leaving the
  state closed.
\<close>

theorem C6_non_network_error_panics:
  "handleError (OtherError m) s =
     (None, s\<lparr>srv_errs_sent := srv_errs_sent s @ [plain (OtherError m)]\<rparr>)
   \<and> exec (AcceptReturns (Inl (OtherError m))) (s\<lparr>routine := Looping\<rparr>) =
     s\<lparr>routine := Crashed, state := closed,
       srv_errs_sent := srv_errs_sent s @ [plain (OtherError m)]\<rparr>"
  by (simp add: handleError_other Accept_iteration_def setState_def)

subsection \<open>Close\<close>

text \<open>
  C10. In every server state, when closing the listener fails, Close returns that error
  at once: it does not reach waitForState, and the server, its state field included, is
  as before.
\<close>

theorem C10_Close_listener_error:
  "fst (socket_Close (listener s)) = Some err \<Longrightarrow> Close s = (Return (Some err), s)"
  by (auto simp: Close_def socket_Close_def split: if_splits)

theorem C10_Close_listener_error_witness:
  "fst (socket_Close (listener (NewSocket (7::nat) \<lparr>fd_closed = True, deadline_at = None\<rparr>)))
     = Some ''close tcp: use of closed network connection''
   \<and> Close (NewSocket (7::nat) \<lparr>fd_closed = True, deadline_at = None\<rparr>)
     = (Return (Some ''close tcp: use of closed network connection''),
        NewSocket 7 \<lparr>fd_closed = True, deadline_at = None\<rparr>)"
proof -
  have h: "fst (socket_Close (listener (NewSocket (7::nat) \<lparr>fd_closed = True, deadline_at = None\<rparr>)))
     = Some ''close tcp: use of closed network connection''"
    by (simp add: NewSocket_def socket_Close_def)
  from C10_Close_listener_error [OF h] h show ?thesis by simp
qed

subsection \<open>The state machine\<close>

text \<open>
  The specification has every Close or Release that is called in a state other than
  accepting move the state straight to closed. Close first closes the listener and
  returns the listener's error when that fails, before it looks at the state: a second
  Close, called while the first waits with the state closing, leaves the state closing.
\<close>

theorem C4_counterexample:
  "state (run [CallAccept, CallClose] (NewSocket (7::nat) \<lparr>fd_closed = False, deadline_at = None\<rparr>)) = closing
   \<and> state (exec CallClose
        (run [CallAccept, CallClose] (NewSocket (7::nat) \<lparr>fd_closed = False, deadline_at = None\<rparr>)))
      \<noteq> closed"
  by (simp add: NewSocket_def Accept_enter_def setStateIf_def Close_def socket_Close_def)

text \<open>
  C4, as the code has it. Under every interleaving of the steps of Accept, Close and
  Release, from any server, the state stays where it is or moves forward along the edges
  idle, accepting, closing or releasing, closed; from closed no step changes it. Release
  called in a state other than accepting sets the state to closed (in accepting, to
  releasing). Close called in a state other than accepting sets the state to closed when
  closing the listener succeeds (in accepting, to closing); when closing the listener
  fails, Close leaves the state as it is.
\<close>

theorem C4_state_moves_forward:
  "edge\<^sup>*\<^sup>* (state s) (state (run es s))
   \<and> state (run es (s\<lparr>state := closed\<rparr>)) = closed
   \<and> state (snd (Release now s)) = (if state s = accepting then releasing else closed)
   \<and> state (snd (Close s)) =
       (if fd_closed (listener s) then state s
        else if state s = accepting then closing else closed)"
proof -
  have "forward closed (state (run es (s\<lparr>state := closed\<rparr>)))"
    using run_forward [of "s\<lparr>state := closed\<rparr>" es] by simp
  then have "state (run es (s\<lparr>state := closed\<rparr>)) = closed" by simp
  then show ?thesis
    by (simp add: forward_edges run_forward Release_state Close_state)
qed

subsection \<open>Close is not idempotent\<close>

text \<open>
  The specification has every call of Close succeed, also a second call after a Close
  has completed. On a new server the first Close returns nil with the listener closed
  and the state closed; the second returns the listener's error.
\<close>

theorem C9_counterexample:
  "Close (NewSocket (7::nat) \<lparr>fd_closed = False, deadline_at = None\<rparr>)
     = (Return None, (NewSocket 7 \<lparr>fd_closed = True, deadline_at = None\<rparr>)\<lparr>state := closed\<rparr>)
   \<and> fst (Close (snd (Close (NewSocket (7::nat) \<lparr>fd_closed = False, deadline_at = None\<rparr>))))
     = Return (Some ''close tcp: use of closed network connection'')"
  by (simp add: NewSocket_def Close_def socket_Close_def)

text \<open>
  C9, as the code has it. A call of Close made while the listener is open closes the
  listener and returns nil, and only with the server in state closed: at once when the
  state was not accepting, and otherwise when waitForState reads closed (a call whose
  waitForState never reads closed does not return). A call made when the listener is
  already closed, such as a second call after a Close has completed, returns the
  listener's error at once with the state as it was.
\<close>

theorem C9_Close_on_open_listener:
  "(\<not> fd_closed (listener s) \<longrightarrow>
      fd_closed (listener (snd (Close s)))
      \<and> completes (Close s) later =
          (if state s = accepting \<and> closed \<notin> set later then None else Some (None, closed)))
   \<and> (fd_closed (listener s) \<longrightarrow>
      completes (Close s) later
        = Some (Some ''close tcp: use of closed network connection'', state s))"
  by (auto simp: Close_def socket_Close_def waitForState_iff)

theorem C9_Close_on_open_listener_witness:
  "\<not> fd_closed (listener (run [CallAccept] (NewSocket (7::nat) \<lparr>fd_closed = False, deadline_at = None\<rparr>)))
   \<and> fd_closed (listener (snd (Close (run [CallAccept] (NewSocket (7::nat) \<lparr>fd_closed = False, deadline_at = None\<rparr>)))))
   \<and> completes (Close (run [CallAccept] (NewSocket (7::nat) \<lparr>fd_closed = False, deadline_at = None\<rparr>))) [closing, closed]
       = Some (None, closed)
   \<and> fd_closed (listener (NewSocket (7::nat) \<lparr>fd_closed = True, deadline_at = None\<rparr>))
   \<and> completes (Close (NewSocket (7::nat) \<lparr>fd_closed = True, deadline_at = None\<rparr>)) []
       = Some (Some ''close tcp: use of closed network connection'', idle)"
  using C9_Close_on_open_listener
      [of "run [CallAccept] (NewSocket (7::nat) \<lparr>fd_closed = False, deadline_at = None\<rparr>)"
          "[closing, closed]"]
    C9_Close_on_open_listener
      [of "NewSocket (7::nat) \<lparr>fd_closed = True, deadline_at = None\<rparr>" "[]"]
  by (simp add: NewSocket_def Accept_enter_def setStateIf_def)

subsection \<open>Release\<close>

text \<open>
  C8. Release called in state accepting, the listener open: it sets the state to
  releasing and the listener's deadline to the current instant, and does not close the
  listener; it then waits in waitForState and returns when that reads closed, not before,
  and what it returns is the handle in the field \<open>socket\<close>. That field never changes, so
  it is the handle the server was constructed with. No step but Close closes the
  listener: it is still open after any further steps of Accept and Release.
\<close>

theorem C8_Release_while_accepting:
  "state s = accepting \<Longrightarrow> \<not> fd_closed (listener s) \<Longrightarrow> CallClose \<notin> set es \<Longrightarrow>
     Release now s =
       (WaitThenReturn closed (socket s),
        s\<lparr>state := releasing, listener := (listener s)\<lparr>deadline_at := Some now\<rparr>\<rparr>)
     \<and> completes (Release now s) later =
         (if closed \<in> set later then Some (socket s, closed) else None)
     \<and> \<not> fd_closed (listener (run es (snd (Release now s))))
     \<and> socket (run es (snd (Release now s))) = socket s
     \<and> socket (run es' (NewSocket p l)) = p"
  by (simp add: Release_def SetDeadline_def waitForState_iff run_listener_open run_frame
      NewSocket_def)

theorem C8_Release_while_accepting_witness:
  "state (run [CallAccept] (NewSocket (7::nat) \<lparr>fd_closed = False, deadline_at = None\<rparr>)) = accepting
   \<and> \<not> fd_closed (listener (run [CallAccept] (NewSocket (7::nat) \<lparr>fd_closed = False, deadline_at = None\<rparr>)))
   \<and> CallClose \<notin> set [AcceptReturns (Inl (NetError \<lparr>Timeout = True, Temporary = True, Error = ''accept tcp: i/o timeout''\<rparr>))]
   \<and> completes (Release 5 (run [CallAccept] (NewSocket (7::nat) \<lparr>fd_closed = False, deadline_at = None\<rparr>))) [releasing, closed]
       = Some (7, closed)
   \<and> \<not> fd_closed (listener (run [AcceptReturns (Inl (NetError \<lparr>Timeout = True, Temporary = True, Error = ''accept tcp: i/o timeout''\<rparr>))]
        (snd (Release 5 (run [CallAccept] (NewSocket (7::nat) \<lparr>fd_closed = False, deadline_at = None\<rparr>))))))"
proof -
  let ?s = "run [CallAccept] (NewSocket (7::nat) \<lparr>fd_closed = False, deadline_at = None\<rparr>)"
  let ?es = "[AcceptReturns (Inl (NetError \<lparr>Timeout = True, Temporary = True, Error = ''accept tcp: i/o timeout''\<rparr>))]"
  have h1: "state ?s = accepting" by (simp add: NewSocket_def Accept_enter_def setStateIf_def)
  have h2: "\<not> fd_closed (listener ?s)" by (simp add: NewSocket_def Accept_enter_def setStateIf_def)
  have h3: "CallClose \<notin> set ?es" by simp
  have h4: "socket ?s = 7" by (simp add: NewSocket_def Accept_enter_def setStateIf_def)
  note t = C8_Release_while_accepting [OF h1 h2 h3, of 5 "[releasing, closed]"]
  have c: "completes (Release 5 ?s) [releasing, closed] = Some (7, closed)"
    unfolding t [THEN conjunct2, THEN conjunct1] h4 by simp
  have o: "\<not> fd_closed (listener (run ?es (snd (Release 5 ?s))))"
    by (rule t [THEN conjunct2, THEN conjunct2, THEN conjunct1])
  show ?thesis by (rule conjI [OF h1 conjI [OF h2 conjI [OF h3 conjI [OF c o]]]])
qed

section \<open>Who closes the feeds\<close>

text \<open>
  The specification has the Server's accept task close the feed of clients and the error
  feed when it ends. Accept defers only \<open>setState(closed)\<close>: after an accept task that
  ended on a fatal error, neither channel has been closed.
\<close>

theorem C2_counterexample:
  "routine (run [CallAccept, AcceptReturns (Inl (NetError \<lparr>Timeout = False, Temporary = False, Error = ''accept tcp: boom''\<rparr>))]
      (NewSocket (7::nat) \<lparr>fd_closed = False, deadline_at = None\<rparr>)) = Done
   \<and> clients_closes (run [CallAccept, AcceptReturns (Inl (NetError \<lparr>Timeout = False, Temporary = False, Error = ''accept tcp: boom''\<rparr>))]
      (NewSocket (7::nat) \<lparr>fd_closed = False, deadline_at = None\<rparr>)) \<noteq> 1
   \<and> srv_errs_closes (run [CallAccept, AcceptReturns (Inl (NetError \<lparr>Timeout = False, Temporary = False, Error = ''accept tcp: boom''\<rparr>))]
      (NewSocket (7::nat) \<lparr>fd_closed = False, deadline_at = None\<rparr>)) \<noteq> 1"
  by (simp add: NewSocket_def Accept_enter_def setStateIf_def handleError_net
      Accept_iteration_def setState_def)

text \<open>
  C2, as the code has it. For each of the three streams, from construction and for every
  sequence of values the select receives: while the task is in its loop none of the
  channels \<open>in\<close>, \<open>errs\<close> and \<open>closer\<close> has been closed, and once the task has ended, by
  return or by panic, each has been closed exactly once, by the task's deferred function.
  The Server's steps close neither the feed of clients nor the error feed: under every
  interleaving of Accept, Close and Release both stay open.
\<close>

theorem C2_closes_by_owning_task:
  "(in_closes (data_Recv parse rs NewStream), errs_closes (data_Recv parse rs NewStream),
      closer_closes (data_Recv parse rs NewStream))
     = (if task (data_Recv parse rs NewStream) = Selecting then (0, 0, 0) else (1, 1, 1))
   \<and> (in_closes (control_Recv parse rs NewStream), errs_closes (control_Recv parse rs NewStream),
      closer_closes (control_Recv parse rs NewStream))
     = (if task (control_Recv parse rs NewStream) = Selecting then (0, 0, 0) else (1, 1, 1))
   \<and> (in_closes (Listen Data parse' rs NewStream), errs_closes (Listen Data parse' rs NewStream),
      closer_closes (Listen Data parse' rs NewStream))
     = (if task (Listen Data parse' rs NewStream) = Selecting then (0, 0, 0) else (1, 1, 1))
   \<and> clients_closes (run es (NewSocket p l)) = 0
   \<and> srv_errs_closes (run es (NewSocket p l)) = 0"
proof -
  have l: "task (Listen_loop Data parse' rs (NewStream\<lparr>task := Selecting\<rparr>)) = Selecting
     \<or> task (Listen_loop Data parse' rs (NewStream\<lparr>task := Selecting\<rparr>)) = Returned
     \<or> task (Listen_loop Data parse' rs (NewStream\<lparr>task := Selecting\<rparr>)) = Panicked"
    by (rule Listen_loop_task) simp
  have srv: "clients_closes (run es (NewSocket p l)) = 0 \<and> srv_errs_closes (run es (NewSocket p l)) = 0"
    by (simp add: run_frame NewSocket_def)
  show ?thesis using l srv
    by (auto simp: data_Recv_def control_Recv_def Listen_def run_deferred_def deferred_closes_def
      data_loop_closes control_loop_closes Listen_loop_closes data_loop_task control_loop_task
      NewStream_def)
qed

end
